theory Spec2Isabelle
  imports Main "HOL-Library.Word"
begin

section \<open>Go values seen by the scanner\<close>

text \<open>
  \<open>os.FileMode\<close> is a \<open>uint32\<close>; its low nine bits are the Unix permission bits
  (\<open>ModePerm = 0777\<close>) and its type bits are high bits (\<open>ModeDir\<close> is bit 31, so a
  directory of permissions \<open>0755\<close> has the mode \<open>0x800001ED\<close>). The numerals below are
  the decimal values of the octal literals of the source: \<open>01000 = 512\<close>, \<open>0700 = 448\<close>,
  \<open>0400 = 256\<close>, \<open>0600 = 384\<close>, \<open>0644 = 420\<close>, \<open>0755 = 493\<close>. On a \<open>FileMode\<close>,
  \<open>%\<close> is the unsigned remainder, \<open>mod\<close> on words.
\<close>

type_synonym FileMode = "32 word"

text \<open>
  \<open>os.FileInfo\<close> is an interface; the scanner and \<open>filepath.Walk\<close> call only
  \<open>Name()\<close>, \<open>Mode()\<close> and \<open>IsDir()\<close>. A nil interface value is \<open>None\<close>.
\<close>

record FileInfo =
  Name :: string
  Mode :: FileMode
  IsDir :: bool

datatype panic = NilPointerDereference

datatype error = ENOENT | EACCES | EOF | SkipDir | SkipAll | HomeNotDefined

record Scanner =
  Warnings :: "string list"
  Home :: string

subsection \<open>\<open>fmt.Sprintf\<close> with the verb \<open>%04o\<close>\<close>

definition octal_digit :: "nat \<Rightarrow> char" where
  "octal_digit d = ''01234567'' ! d"

fun octal :: "nat \<Rightarrow> string" where
  "octal n = (if n < 8 then [octal_digit n] else octal (n div 8) @ [octal_digit (n mod 8)])"

declare octal.simps [simp del]

definition fmt_04o :: "nat \<Rightarrow> string" where
  "fmt_04o n = replicate (4 - length (octal n)) (CHR ''0'') @ octal n"

subsection \<open>\<open>regexp\<close>: the two patterns\<close>

text \<open>
  The syntax tree of a regular expression, matched with derivatives. \<open>AnyCharNotNL\<close>
  is \<open>.\<close> without the \<open>s\<close> flag: any character but a newline. Both patterns of the
  source open with \<open>^\<close> and close with \<open>$\<close> and set no flag, so \<open>MatchString\<close>,
  which looks for a match anywhere in the text, finds one exactly when the body between
  the two anchors matches the whole text: \<open>MatchString\<close> takes that body. A string is
  its bytes; the newline byte is never a part of a longer UTF-8 sequence, so matching
  bytes and matching code points agree on both patterns.
\<close>

datatype regexp =
    NoMatch
  | EmptyMatch
  | Literal char
  | AnyCharNotNL
  | Concat regexp regexp
  | Alternate regexp regexp
  | Star regexp
  | Plus regexp

fun nullable :: "regexp \<Rightarrow> bool" where
  "nullable NoMatch = False"
| "nullable EmptyMatch = True"
| "nullable (Literal c) = False"
| "nullable AnyCharNotNL = False"
| "nullable (Concat r s) = (nullable r \<and> nullable s)"
| "nullable (Alternate r s) = (nullable r \<or> nullable s)"
| "nullable (Star r) = True"
| "nullable (Plus r) = nullable r"

fun deriv :: "char \<Rightarrow> regexp \<Rightarrow> regexp" where
  "deriv c NoMatch = NoMatch"
| "deriv c EmptyMatch = NoMatch"
| "deriv c (Literal d) = (if c = d then EmptyMatch else NoMatch)"
| "deriv c AnyCharNotNL = (if c = CHR 0x0A then NoMatch else EmptyMatch)"
| "deriv c (Concat r s) =
     (if nullable r then Alternate (Concat (deriv c r) s) (deriv c s)
      else Concat (deriv c r) s)"
| "deriv c (Alternate r s) = Alternate (deriv c r) (deriv c s)"
| "deriv c (Star r) = Concat (deriv c r) (Star r)"
| "deriv c (Plus r) = Concat (deriv c r) (Star r)"

definition MatchString :: "regexp \<Rightarrow> string \<Rightarrow> bool" where
  "MatchString re s = nullable (foldl (\<lambda>r c. deriv c r) re s)"

definition literal :: "string \<Rightarrow> regexp" where
  "literal s = foldr (\<lambda>c r. Concat (Literal c) r) s EmptyMatch"

definition SSHKeyPattern :: regexp where
  \<comment> \<open>\<open>^id_.+$\<close>\<close>
  "SSHKeyPattern = Concat (literal ''id_'') (Plus AnyCharNotNL)"

definition SSHPublicKeyPattern :: regexp where
  \<comment> \<open>\<open>^id_.+\.pub$\<close>\<close>
  "SSHPublicKeyPattern = Concat (literal ''id_'') (Concat (Plus AnyCharNotNL) (literal ''.pub''))"

subsection \<open>\<open>path.Base\<close>, \<open>filepath.Dir\<close>, \<open>filepath.Join\<close> (Unix)\<close>

text \<open>
  The path functions of the Go library on a system whose separator is \<open>/\<close> and
  whose paths have no volume name. \<open>Clean\<close> is given by what its loop does to the
  elements between slashes: empty elements and \<open>.\<close> are dropped, \<open>..\<close> removes the
  element before it when there is one that is not itself a kept \<open>..\<close>, is dropped at
  the root, and is kept at the front of a relative path; an empty result is \<open>.\<close>.
\<close>

fun split_slash :: "string \<Rightarrow> string list" where
  "split_slash [] = [[]]"
| "split_slash (c # cs) =
     (if c = CHR ''/'' then [] # split_slash cs
      else (case split_slash cs of e # es \<Rightarrow> (c # e) # es | [] \<Rightarrow> [[c]]))"

fun join_slash :: "string list \<Rightarrow> string" where
  "join_slash [] = []"
| "join_slash [e] = e"
| "join_slash (e # es) = e @ ''/'' @ join_slash es"

definition clean_step :: "bool \<Rightarrow> string list \<Rightarrow> string \<Rightarrow> string list" where
  "clean_step rooted out e =
     (if e = [] \<or> e = ''.'' then out
      else if e = ''..'' then
        (if out \<noteq> [] \<and> last out \<noteq> ''..'' then butlast out
         else if \<not> rooted then out @ [''..'']
         else out)
      else out @ [e])"

definition Clean :: "string \<Rightarrow> string" where
  "Clean path =
     (if path = [] then ''.''
      else
        (let rooted = (hd path = CHR ''/'');
             out = (if rooted then ''/'' else []) @
                   join_slash (foldl (clean_step rooted) [] (split_slash path))
         in if out = [] then ''.'' else out))"

fun strip_trailing_slashes :: "string \<Rightarrow> string" where
  "strip_trailing_slashes path =
     (if path \<noteq> [] \<and> last path = CHR ''/'' then strip_trailing_slashes (butlast path)
      else path)"

declare strip_trailing_slashes.simps [simp del]

definition Base :: "string \<Rightarrow> string" where
  "Base path =
     (if path = [] then ''.''
      else
        (let p = last (split_slash (strip_trailing_slashes path))
         in if p = [] then ''/'' else p))"

definition Dir :: "string \<Rightarrow> string" where
  "Dir path = Clean (rev (dropWhile (\<lambda>c. c \<noteq> CHR ''/'') (rev path)))"

definition Join :: "string \<Rightarrow> string \<Rightarrow> string" where
  "Join dir name =
     (if dir \<noteq> [] then Clean (dir @ ''/'' @ name)
      else if name \<noteq> [] then Clean name
      else [])"

section \<open>The rules\<close>

definition NewScanner :: "error + string \<Rightarrow> error + Scanner" where
  \<comment> \<open>the argument is what \<open>os.UserHomeDir()\<close> returns\<close>
  "NewScanner UserHomeDir =
     (case UserHomeDir of
        Inl err \<Rightarrow> Inl err
      | Inr home \<Rightarrow> Inr \<lparr>Warnings = [], Home = home\<rparr>)"

definition ScanSSH :: "Scanner \<Rightarrow> string \<Rightarrow> FileInfo option \<Rightarrow> panic + string list" where
  "ScanSSH sc pth info =
     (case info of
        None \<Rightarrow> Inl NilPointerDereference
      | Some i \<Rightarrow>
          Inr (if Name i = ''.ssh'' then
                 (let mode = Mode i mod 512 in
                  if mode \<noteq> 448 then [pth @ '': expected chmod 0700, got '' @ fmt_04o (unat mode)]
                  else [])
               else []))"

definition ScanSSHConfig :: "Scanner \<Rightarrow> string \<Rightarrow> FileInfo option \<Rightarrow> panic + string list" where
  "ScanSSHConfig sc pth info =
     (case info of
        None \<Rightarrow> Inl NilPointerDereference
      | Some i \<Rightarrow>
          Inr (if Name i = ''config'' then
                 (let parent = Base (Dir pth) in
                  if parent = ''.ssh'' then
                    (let mode = Mode i mod 512 in
                     if mode \<noteq> 256 then [pth @ '': expected chmod 0400, got '' @ fmt_04o (unat mode)]
                     else [])
                  else [])
               else []))"

definition ScanSSHKeys :: "Scanner \<Rightarrow> string \<Rightarrow> FileInfo option \<Rightarrow> panic + string list" where
  "ScanSSHKeys sc pth info =
     (case info of
        None \<Rightarrow> Inl NilPointerDereference
      | Some i \<Rightarrow>
          (let name = Name i in
           Inr (if MatchString SSHKeyPattern name then
                  (let parent = Base (Dir pth) in
                   if parent = ''.ssh'' then
                     (let mode = Mode i mod 512 in
                      if MatchString SSHPublicKeyPattern name then
                        (if mode \<noteq> 420 then [pth @ '': expected chmod 0644, got '' @ fmt_04o (unat mode)]
                         else [])
                      else
                        (if mode \<noteq> 384 then [pth @ '': expected chmod 0600, got '' @ fmt_04o (unat mode)]
                         else []))
                   else [])
                else [])))"

definition ScanSSHAuthorizedKeys :: "Scanner \<Rightarrow> string \<Rightarrow> FileInfo option \<Rightarrow> panic + string list" where
  "ScanSSHAuthorizedKeys sc pth info =
     (case info of
        None \<Rightarrow> Inl NilPointerDereference
      | Some i \<Rightarrow>
          Inr (if Name i = ''authorized_keys'' then
                 (let mode = Mode i mod 512 in
                  if mode \<noteq> 384 then [pth @ '': expected chmod 0600, got '' @ fmt_04o (unat mode)]
                  else [])
               else []))"

definition ScanSSHKnownHosts :: "Scanner \<Rightarrow> string \<Rightarrow> FileInfo option \<Rightarrow> panic + string list" where
  "ScanSSHKnownHosts sc pth info =
     (case info of
        None \<Rightarrow> Inl NilPointerDereference
      | Some i \<Rightarrow>
          Inr (if Name i = ''known_hosts'' then
                 (let mode = Mode i mod 512 in
                  if mode \<noteq> 420 then [pth @ '': expected chmod 0644, got '' @ fmt_04o (unat mode)]
                  else [])
               else []))"

definition ScanHome :: "Scanner \<Rightarrow> string \<Rightarrow> FileInfo option \<Rightarrow> panic + string list" where
  "ScanHome sc pth info =
     (case info of
        None \<Rightarrow> Inl NilPointerDereference
      | Some i \<Rightarrow>
          Inr (if Name i = Home sc then
                 (let mode = Mode i mod 512 in
                  if mode \<noteq> 493 then [pth @ '': expected chmod 0755, got '' @ fmt_04o (unat mode)]
                  else [])
               else []))"

section \<open>The walk\<close>

text \<open>
  One step of \<open>Walk\<close>: \<open>o.Warnings = append(o.Warnings, rule(pth, info)...)\<close>. A
  panic in the rule leaves the function before the assignment.
\<close>

definition append_warnings ::
  "(Scanner \<Rightarrow> string \<Rightarrow> FileInfo option \<Rightarrow> panic + string list) \<Rightarrow>
   string \<Rightarrow> FileInfo option \<Rightarrow> panic + Scanner \<Rightarrow> panic + Scanner" where
  "append_warnings rule pth info r =
     (case r of
        Inl p \<Rightarrow> Inl p
      | Inr sc \<Rightarrow>
          (case rule sc pth info of
             Inl p \<Rightarrow> Inl p
           | Inr ws \<Rightarrow> Inr (sc\<lparr>Warnings := Warnings sc @ ws\<rparr>)))"

definition Walk ::
  "Scanner \<Rightarrow> string \<Rightarrow> FileInfo option \<Rightarrow> error option \<Rightarrow> panic + Scanner \<times> error option" where
  \<comment> \<open>the argument \<open>err\<close> is never read; the result is always \<open>nil\<close>\<close>
  "Walk sc pth info err =
     (case foldl (\<lambda>r rule. append_warnings rule pth info r) (Inr sc)
             [ScanSSH, ScanSSHConfig, ScanSSHKeys, ScanSSHAuthorizedKeys, ScanSSHKnownHosts,
              ScanHome] of
        Inl p \<Rightarrow> Inl p
      | Inr sc' \<Rightarrow> Inr (sc', None))"

subsection \<open>\<open>filepath.Walk\<close> over a file tree\<close>

text \<open>
  What \<open>os.Lstat\<close> and the directory listing answer under a path: \<open>Lstat\<close> fails
  (\<open>LstatError\<close>), or it returns a \<open>FileInfo\<close>; for a directory, reading its names
  either fails with the given error or returns the sorted names, each with the node
  behind it.
\<close>

datatype fsnode =
    LstatError error
  | Entry FileInfo "error option" "(string \<times> fsnode) list"

type_synonym 'st WalkFunc =
  "'st \<Rightarrow> string \<Rightarrow> FileInfo option \<Rightarrow> error option \<Rightarrow> panic + 'st \<times> error option"

text \<open>
  \<open>walk\<close> of \<open>path/filepath\<close>, as the Go library has it: a file is handed to the
  function; a directory is listed first, handed to the function with the listing's
  error, left when either error is set, and descended into otherwise. For each name, an
  entry whose \<open>Lstat\<close> fails is handed to the function with a nil \<open>FileInfo\<close> and that
  error. \<open>Lstat\<close> does not follow symbolic links, so what is walked is a finite tree.
  The function threads its state \<open>'st\<close> (the scanner, for \<open>Walk\<close>) and may panic.
\<close>

fun walk :: "'st WalkFunc \<Rightarrow> string \<Rightarrow> FileInfo \<Rightarrow> error option \<Rightarrow> (string \<times> fsnode) list \<Rightarrow> 'st \<Rightarrow>
    panic + 'st \<times> error option"
and walk_names :: "'st WalkFunc \<Rightarrow> string \<Rightarrow> (string \<times> fsnode) list \<Rightarrow> 'st \<Rightarrow>
    panic + 'st \<times> error option" where
  "walk walkFn path info rderr names st =
     (if \<not> IsDir info then walkFn st path (Some info) None
      else
        (case walkFn st path (Some info) rderr of
           Inl p \<Rightarrow> Inl p
         | Inr (st1, err1) \<Rightarrow>
             if rderr = None \<and> err1 = None then walk_names walkFn path names st1
             else Inr (st1, err1)))"
| "walk_names walkFn path [] st = Inr (st, None)"
| "walk_names walkFn path ((name, LstatError e) # rest) st =
     (case walkFn st (Join path name) None (Some e) of
        Inl p \<Rightarrow> Inl p
      | Inr (st1, err) \<Rightarrow>
          if err = None \<or> err = Some SkipDir then walk_names walkFn path rest st1
          else Inr (st1, err))"
| "walk_names walkFn path ((name, Entry info rderr names) # rest) st =
     (case walk walkFn (Join path name) info rderr names st of
        Inl p \<Rightarrow> Inl p
      | Inr (st1, err) \<Rightarrow>
          if err = None \<or> (IsDir info \<and> err = Some SkipDir) then walk_names walkFn path rest st1
          else Inr (st1, err))"

definition filepath_Walk ::
  "(string \<Rightarrow> fsnode) \<Rightarrow> string \<Rightarrow> 'st WalkFunc \<Rightarrow> 'st \<Rightarrow> panic + 'st \<times> error option" where
  "filepath_Walk fs root fn st =
     (case (case fs root of
              LstatError e \<Rightarrow> fn st root None (Some e)
            | Entry info rderr names \<Rightarrow> walk fn root info rderr names st) of
        Inl p \<Rightarrow> Inl p
      | Inr (st1, err) \<Rightarrow>
          if err = Some SkipDir \<or> err = Some SkipAll then Inr (st1, None)
          else Inr (st1, err))"

section \<open>Scan and Report\<close>

text \<open>
  \<open>Scan\<close>, for any traversal in the place of \<open>filepath.Walk\<close>: what \<open>Scan\<close> does
  with the traversal's result does not depend on how the traversal finds it.
\<close>

definition Scan_over ::
  "(string \<Rightarrow> Scanner WalkFunc \<Rightarrow> Scanner \<Rightarrow> panic + Scanner \<times> error option) \<Rightarrow>
   error + string \<Rightarrow> string \<Rightarrow> panic + string list \<times> error option" where
  "Scan_over traverse UserHomeDir root =
     (case NewScanner UserHomeDir of
        Inl err \<Rightarrow> Inr ([], Some err)
      | Inr scanner \<Rightarrow>
          (case traverse root Walk scanner of
             Inl p \<Rightarrow> Inl p
           | Inr (scanner', err) \<Rightarrow>
               if err \<noteq> None \<and> err \<noteq> Some EOF then Inr (Warnings scanner', err)
               else Inr (Warnings scanner', None)))"

definition Scan ::
  "(string \<Rightarrow> fsnode) \<Rightarrow> error + string \<Rightarrow> string \<Rightarrow> panic + string list \<times> error option" where
  "Scan fs UserHomeDir root = Scan_over (filepath_Walk fs) UserHomeDir root"

datatype printed = Line string | ErrorLine error

definition Report ::
  "(string \<Rightarrow> fsnode) \<Rightarrow> error + string \<Rightarrow> string \<Rightarrow> panic + printed list \<times> int" where
  \<comment> \<open>the lines written to the console, and the status returned\<close>
  "Report fs UserHomeDir root =
     (case Scan fs UserHomeDir root of
        Inl p \<Rightarrow> Inl p
      | Inr (warnings, err) \<Rightarrow>
          if length warnings \<noteq> 0 then Inr (map Line warnings, 1)
          else (case err of
                  Some e \<Rightarrow> Inr (map Line warnings @ [ErrorLine e], 1)
                | None \<Rightarrow> Inr (map Line warnings, 0)))"

section \<open>Specification vocabulary\<close>




text \<open>
  The mode comparison in the words of the specification: the mode is reduced to its low
  \<open>bits\<close> bits and compared with the expected value; a mismatch is one discrepancy,
  which shows the expected mode as \<open>shown\<close> and the reduced mode in octal.
\<close>

definition mode_check :: "nat \<Rightarrow> string \<Rightarrow> string \<Rightarrow> FileMode \<Rightarrow> FileMode \<Rightarrow> string list" where
  "mode_check bits pth shown expected m =
     (let actual = take_bit bits m in
      if actual \<noteq> expected then [pth @ '': expected chmod '' @ shown @ '', got '' @ fmt_04o (unat actual)]
      else [])"

text \<open>
  The twelve bits the specification names: the owner, group and other permission bits
  plus the sticky, setgid and setuid bits, as \<open>chmod\<close> writes them (\<open>01000\<close>,
  \<open>02000\<close>, \<open>04000\<close>). In an \<open>os.FileMode\<close> the three special bits are not bits 9
  to 11, which \<open>os.Lstat\<close> leaves clear: \<open>ModeSticky\<close> is bit 20, \<open>ModeSetgid\<close> bit
  22 and \<open>ModeSetuid\<close> bit 23. \<open>special_mode_check\<close> is the comparison of the
  specification on those twelve bits.
\<close>

definition permission_and_special_bits :: "FileMode \<Rightarrow> FileMode" where
  "permission_and_special_bits m =
     take_bit 9 m + (if bit m 20 then 512 else 0) + (if bit m 22 then 1024 else 0) +
     (if bit m 23 then 2048 else 0)"

definition special_mode_check :: "string \<Rightarrow> string \<Rightarrow> FileMode \<Rightarrow> FileMode \<Rightarrow> string list" where
  "special_mode_check pth shown expected m =
     (let actual = permission_and_special_bits m in
      if actual \<noteq> expected then [pth @ '': expected chmod '' @ shown @ '', got '' @ fmt_04o (unat actual)]
      else [])"

definition four_octal_digits :: "string \<Rightarrow> bool" where
  "four_octal_digits s = (length s = 4 \<and> list_all (\<lambda>c. c \<in> set ''01234567'') s)"

section \<open>The two patterns, characterised\<close>














subsection \<open>Octal rendering\<close>

lemma octal_digit_in: "d < 8 \<Longrightarrow> octal_digit d \<in> set ''01234567''"
proof -
  assume "d < 8"
  then have "d \<in> {0, 1, 2, 3, 4, 5, 6, 7}" by auto
  then show ?thesis by (auto simp: octal_digit_def)
qed

lemma octal_chars: "list_all (\<lambda>c. c \<in> set ''01234567'') (octal n)"
proof (induction n rule: octal.induct)
  case (1 n)
  show ?case
  proof (cases "n < 8")
    case True
    then show ?thesis using octal_digit_in [of n] by (simp add: octal.simps [of n])
  next
    case False
    have "n mod 8 < 8" by simp
    with False 1 show ?thesis
      using octal_digit_in [of "n mod 8"] by (simp add: octal.simps [of n])
  qed
qed

lemma length_octal: "0 < k \<Longrightarrow> n < 8 ^ k \<Longrightarrow> length (octal n) \<le> k"
proof (induction n arbitrary: k rule: octal.induct)
  case (1 n)
  show ?case
  proof (cases "n < 8")
    case True
    with 1 show ?thesis by (simp add: octal.simps [of n])
  next
    case False
    obtain j where k: "k = Suc j" using 1(2) by (cases k) auto
    have "0 < j" using False 1(3) k by (cases j) auto
    moreover have "n div 8 < 8 ^ j" using 1(3) k by (simp add: less_mult_imp_div_less mult.commute)
    ultimately have "length (octal (n div 8)) \<le> j" using 1(1) False by blast
    with False k show ?thesis by (simp add: octal.simps [of n])
  qed
qed

lemma fmt_04o_four: "n < 4096 \<Longrightarrow> four_octal_digits (fmt_04o n)"
proof -
  assume "n < 4096"
  then have "length (octal n) \<le> 4" using length_octal [of 4 n] by simp
  moreover have "list_all (\<lambda>c. c \<in> set ''01234567'') (replicate k (CHR ''0''))" for k
    by (induction k) simp_all
  ultimately show ?thesis
    using octal_chars [of n] by (simp add: four_octal_digits_def fmt_04o_def del: set_simps list.set)
qed

lemma unat_perm_bits: "unat ((m :: FileMode) mod 512) < 512"
  by (simp add: unat_mod)

lemma mod_512_take_bit: "(m :: FileMode) mod 512 = take_bit 9 m"
  by (simp add: take_bit_eq_mod)

section \<open>The walk never reports an error\<close>

lemma append_warnings_Inr:
  "rule sc pth info = Inr ws \<Longrightarrow>
   append_warnings rule pth info (Inr sc) = Inr (sc\<lparr>Warnings := Warnings sc @ ws\<rparr>)"
  by (simp add: append_warnings_def)

lemma append_warnings_Inl: "append_warnings rule pth info (Inl p) = Inl p"
  by (simp add: append_warnings_def)

lemma Walk_nil: "Walk sc pth None err = Inl NilPointerDereference"
  by (simp add: Walk_def append_warnings_def ScanSSH_def)

lemma rule_entry:
  "\<exists>ws. ScanSSH sc pth (Some i) = Inr ws"
  "\<exists>ws. ScanSSHConfig sc pth (Some i) = Inr ws"
  "\<exists>ws. ScanSSHKeys sc pth (Some i) = Inr ws"
  "\<exists>ws. ScanSSHAuthorizedKeys sc pth (Some i) = Inr ws"
  "\<exists>ws. ScanSSHKnownHosts sc pth (Some i) = Inr ws"
  "\<exists>ws. ScanHome sc pth (Some i) = Inr ws"
  by (simp_all add: ScanSSH_def ScanSSHConfig_def ScanSSHKeys_def ScanSSHAuthorizedKeys_def
      ScanSSHKnownHosts_def ScanHome_def Let_def split del: if_split)

lemma append_warnings_grows:
  assumes "\<And>s. \<exists>ws. rule s pth info = Inr ws"
    and "r = Inr (sc\<lparr>Warnings := Warnings sc @ vs\<rparr>)"
  shows "\<exists>ws. append_warnings rule pth info r = Inr (sc\<lparr>Warnings := Warnings sc @ ws\<rparr>)"
proof -
  obtain ws where "rule (sc\<lparr>Warnings := Warnings sc @ vs\<rparr>) pth info = Inr ws"
    using assms(1) by blast
  then have "append_warnings rule pth info r = Inr (sc\<lparr>Warnings := Warnings sc @ (vs @ ws)\<rparr>)"
    using assms(2) by (simp add: append_warnings_def)
  then show ?thesis by blast
qed

lemma foldl_append_warnings_grows:
  assumes "\<And>rule s. rule \<in> set rules \<Longrightarrow> \<exists>ws. rule s pth info = Inr ws"
    and "r = Inr (sc\<lparr>Warnings := Warnings sc @ vs\<rparr>)"
  shows "\<exists>ws. foldl (\<lambda>r rule. append_warnings rule pth info r) r rules =
           Inr (sc\<lparr>Warnings := Warnings sc @ ws\<rparr>)"
  using assms
proof (induction rules arbitrary: r vs)
  case Nil
  then show ?case by auto
next
  case (Cons rule rules)
  have "\<exists>ws. append_warnings rule pth info r = Inr (sc\<lparr>Warnings := Warnings sc @ ws\<rparr>)"
    using Cons.prems by (intro append_warnings_grows [where vs = vs]) simp_all
  then obtain ws where "append_warnings rule pth info r = Inr (sc\<lparr>Warnings := Warnings sc @ ws\<rparr>)"
    by blast
  then show ?case
    using Cons.IH [of "append_warnings rule pth info r" ws] Cons.prems(1) by simp
qed

lemma Walk_entry:
  "\<exists>ws. Walk sc pth (Some i) err = Inr (sc\<lparr>Warnings := Warnings sc @ ws\<rparr>, None)"
proof -
  have "\<exists>ws. foldl (\<lambda>r rule. append_warnings rule pth (Some i) r) (Inr sc)
          [ScanSSH, ScanSSHConfig, ScanSSHKeys, ScanSSHAuthorizedKeys, ScanSSHKnownHosts, ScanHome] =
        Inr (sc\<lparr>Warnings := Warnings sc @ ws\<rparr>)"
  proof (rule foldl_append_warnings_grows [where vs = "[]"])
    fix rule s
    assume "rule \<in> set [ScanSSH, ScanSSHConfig, ScanSSHKeys, ScanSSHAuthorizedKeys,
      ScanSSHKnownHosts, ScanHome]"
    then consider "rule = ScanSSH" | "rule = ScanSSHConfig" | "rule = ScanSSHKeys"
      | "rule = ScanSSHAuthorizedKeys" | "rule = ScanSSHKnownHosts" | "rule = ScanHome"
      by auto
    then show "\<exists>ws. rule s pth (Some i) = Inr ws"
      by cases (simp_all only: rule_entry)
  qed simp
  then show ?thesis
    unfolding Walk_def by auto
qed

lemma Walk_no_error: "Walk sc pth info err = Inr (sc', e) \<Longrightarrow> e = None"
  by (auto simp: Walk_def split: sum.splits)

lemma walk_Walk_no_error:
  "walk Walk path info rderr names sc = Inr (sc', e) \<Longrightarrow> e = None"
  "walk_names Walk path names sc = Inr (sc', e) \<Longrightarrow> e = None"
proof (induction Walk path info rderr names sc and Walk path names sc
    arbitrary: sc' e and sc' e rule: walk_walk_names.induct)
  case (1 path info rderr names st)
  obtain ws where W: "Walk st path (Some info) rderr = Inr (st\<lparr>Warnings := Warnings st @ ws\<rparr>, None)"
    using Walk_entry by blast
  show ?case
  proof (cases "IsDir info")
    case False
    with "1.prems" show ?thesis by (simp add: Walk_no_error)
  next
    case True
    show ?thesis
    proof (cases rderr)
      case None
      with True W "1.prems" have "walk_names Walk path names (st\<lparr>Warnings := Warnings st @ ws\<rparr>) = Inr (sc', e)"
        by simp
      with "1.hyps" [OF _ W refl] True None show ?thesis by simp
    next
      case (Some a)
      with True W "1.prems" show ?thesis by simp
    qed
  qed
next
  case (2 path st)
  then show ?case by simp
next
  case (3 path name err rest st)
  show ?case
  proof (cases "Walk st (Join path name) None (Some err)")
    case (Inl p)
    with "3.prems" show ?thesis by simp
  next
    case (Inr r)
    obtain st1 e1 where r: "r = (st1, e1)" by (cases r)
    have e1: "e1 = None" using Inr r Walk_no_error by blast
    with Inr r "3.prems" have "walk_names Walk path rest st1 = Inr (sc', e)" by simp
    with "3.hyps" [OF Inr r [symmetric]] e1 show ?thesis by simp
  qed
next
  case (4 path name info rderr names rest st)
  show ?case
  proof (cases "walk Walk (Join path name) info rderr names st")
    case (Inl p)
    with "4.prems" show ?thesis by simp
  next
    case (Inr r)
    obtain st1 e1 where r: "r = (st1, e1)" by (cases r)
    have e1: "e1 = None" using Inr r "4.hyps"(1) by blast
    with Inr r "4.prems" have "walk_names Walk path rest st1 = Inr (sc', e)" by simp
    with "4.hyps"(2) [OF Inr r [symmetric]] e1 show ?thesis by simp
  qed
qed

lemma filepath_Walk_no_error:
  assumes a: "filepath_Walk fs root Walk sc = Inr (sc', e)"
  shows "e = None"
proof (cases "fs root")
  case (LstatError x)
  with a show ?thesis by (simp add: filepath_Walk_def Walk_nil)
next
  case (Entry info rderr names)
  show ?thesis
  proof (cases "walk Walk root info rderr names sc")
    case (Inl p)
    with a Entry show ?thesis by (simp add: filepath_Walk_def)
  next
    case (Inr r)
    obtain st1 e1 where r: "r = (st1, e1)" by (cases r)
    have "e1 = None" using Inr r walk_Walk_no_error(1) by blast
    with a Entry Inr r show ?thesis by (simp add: filepath_Walk_def)
  qed
qed

lemma Scan_nonexistent_root:
  "fs root = LstatError e \<Longrightarrow> Scan fs (Inr home) root = Inl NilPointerDereference"
  by (simp add: Scan_def Scan_over_def NewScanner_def filepath_Walk_def Walk_nil)

lemma Scan_no_error:
  "Scan fs (Inr home) root = Inr (ws, e) \<Longrightarrow> e = None"
  by (auto simp: Scan_def Scan_over_def NewScanner_def split: sum.splits if_splits
      dest: filepath_Walk_no_error)

subsection \<open>What one visit and one walk add\<close>

lemma rule_ignores_Warnings:
  "ScanSSH (sc\<lparr>Warnings := ws\<rparr>) pth info = ScanSSH sc pth info"
  "ScanSSHConfig (sc\<lparr>Warnings := ws\<rparr>) pth info = ScanSSHConfig sc pth info"
  "ScanSSHKeys (sc\<lparr>Warnings := ws\<rparr>) pth info = ScanSSHKeys sc pth info"
  "ScanSSHAuthorizedKeys (sc\<lparr>Warnings := ws\<rparr>) pth info = ScanSSHAuthorizedKeys sc pth info"
  "ScanSSHKnownHosts (sc\<lparr>Warnings := ws\<rparr>) pth info = ScanSSHKnownHosts sc pth info"
  "ScanHome (sc\<lparr>Warnings := ws\<rparr>) pth info = ScanHome sc pth info"
  by (cases info; simp add: ScanSSH_def ScanSSHConfig_def ScanSSHKeys_def
      ScanSSHAuthorizedKeys_def ScanSSHKnownHosts_def ScanHome_def)+

lemma Walk_appends_rules:
  assumes "ScanSSH sc pth info = Inr w1" "ScanSSHConfig sc pth info = Inr w2"
    "ScanSSHKeys sc pth info = Inr w3" "ScanSSHAuthorizedKeys sc pth info = Inr w4"
    "ScanSSHKnownHosts sc pth info = Inr w5" "ScanHome sc pth info = Inr w6"
  shows "Walk sc pth info err =
    Inr (sc\<lparr>Warnings := Warnings sc @ w1 @ w2 @ w3 @ w4 @ w5 @ w6\<rparr>, None)"
  using assms by (simp add: Walk_def append_warnings_def rule_ignores_Warnings)

lemma walk_Walk_grows:
  "walk Walk path info rderr names sc = Inr (sc', e) \<Longrightarrow>
     \<exists>ws. sc' = sc\<lparr>Warnings := Warnings sc @ ws\<rparr>"
  "walk_names Walk path names sc = Inr (sc', e) \<Longrightarrow>
     \<exists>ws. sc' = sc\<lparr>Warnings := Warnings sc @ ws\<rparr>"
proof (induction Walk path info rderr names sc and Walk path names sc
    arbitrary: sc' e and sc' e rule: walk_walk_names.induct)
  case (1 path info rderr names st)
  obtain ws where W: "Walk st path (Some info) rderr = Inr (st\<lparr>Warnings := Warnings st @ ws\<rparr>, None)"
    using Walk_entry by blast
  obtain vs where V: "Walk st path (Some info) None = Inr (st\<lparr>Warnings := Warnings st @ vs\<rparr>, None)"
    using Walk_entry by blast
  show ?case
  proof (cases "IsDir info")
    case False
    with "1.prems" V show ?thesis by auto
  next
    case True
    show ?thesis
    proof (cases rderr)
      case None
      with True W "1.prems"
      have "walk_names Walk path names (st\<lparr>Warnings := Warnings st @ ws\<rparr>) = Inr (sc', e)"
        by simp
      with "1.hyps" [OF _ W refl] True None
      obtain us where "sc' = st\<lparr>Warnings := Warnings st @ ws\<rparr>
          \<lparr>Warnings := Warnings (st\<lparr>Warnings := Warnings st @ ws\<rparr>) @ us\<rparr>"
        by auto
      then have "sc' = st\<lparr>Warnings := Warnings st @ (ws @ us)\<rparr>" by simp
      then show ?thesis by blast
    next
      case (Some a)
      with True W "1.prems" show ?thesis by auto
    qed
  qed
next
  case (2 path st)
  then have "sc' = st\<lparr>Warnings := Warnings st @ []\<rparr>" by simp
  then show ?case by blast
next
  case (3 path name err rest st)
  then show ?case by (simp add: Walk_nil)
next
  case (4 path name info rderr names rest st)
  show ?case
  proof (cases "walk Walk (Join path name) info rderr names st")
    case (Inl p)
    with "4.prems" show ?thesis by simp
  next
    case (Inr r)
    obtain st1 e1 where r: "r = (st1, e1)" by (cases r)
    have e1: "e1 = None" using Inr r walk_Walk_no_error(1) by blast
    obtain ws where ws: "st1 = st\<lparr>Warnings := Warnings st @ ws\<rparr>"
      using Inr r "4.hyps"(1) by blast
    from Inr r e1 "4.prems" have "walk_names Walk path rest st1 = Inr (sc', e)" by simp
    with "4.hyps"(2) [OF Inr r [symmetric]] e1
    obtain us where "sc' = st1\<lparr>Warnings := Warnings st1 @ us\<rparr>" by auto
    with ws have "sc' = st\<lparr>Warnings := Warnings st @ (ws @ us)\<rparr>" by simp
    then show ?thesis by blast
  qed
qed

lemma Scan_unreadable_directory:
  assumes "fs root = Entry info (Some err) names" and "IsDir info"
  shows "\<exists>ws. Scan fs (Inr home) root = Inr (ws, None)"
proof -
  obtain ws where "Walk \<lparr>Warnings = [], Home = home\<rparr> root (Some info) (Some err) =
      Inr (\<lparr>Warnings = [], Home = home\<rparr>\<lparr>Warnings := Warnings \<lparr>Warnings = [], Home = home\<rparr> @ ws\<rparr>, None)"
    using Walk_entry by blast
  with assms show ?thesis
    by (simp add: Scan_def Scan_over_def NewScanner_def filepath_Walk_def)
qed


section \<open>The rules as mode checks\<close>

lemma ScanSSH_mode_check:
  "ScanSSH sc pth (Some i) =
     Inr (if Name i = ''.ssh'' then mode_check 9 pth ''0700'' 448 (Mode i) else [])"
  by (simp add: ScanSSH_def mode_check_def Let_def mod_512_take_bit)

lemma ScanSSHConfig_mode_check:
  "ScanSSHConfig sc pth (Some i) =
     Inr (if Name i = ''config'' \<and> Base (Dir pth) = ''.ssh''
          then mode_check 9 pth ''0400'' 256 (Mode i) else [])"
  by (simp add: ScanSSHConfig_def mode_check_def Let_def mod_512_take_bit)

lemma ScanSSHKeys_mode_check:
  "ScanSSHKeys sc pth (Some i) =
     Inr (if MatchString SSHKeyPattern (Name i) \<and> Base (Dir pth) = ''.ssh''
          then (if MatchString SSHPublicKeyPattern (Name i)
                then mode_check 9 pth ''0644'' 420 (Mode i)
                else mode_check 9 pth ''0600'' 384 (Mode i))
          else [])"
  by (simp add: ScanSSHKeys_def mode_check_def Let_def mod_512_take_bit)

lemma ScanSSHAuthorizedKeys_mode_check:
  "ScanSSHAuthorizedKeys sc pth (Some i) =
     Inr (if Name i = ''authorized_keys'' then mode_check 9 pth ''0600'' 384 (Mode i) else [])"
  by (simp add: ScanSSHAuthorizedKeys_def mode_check_def Let_def mod_512_take_bit)

lemma ScanSSHKnownHosts_mode_check:
  "ScanSSHKnownHosts sc pth (Some i) =
     Inr (if Name i = ''known_hosts'' then mode_check 9 pth ''0644'' 420 (Mode i) else [])"
  by (simp add: ScanSSHKnownHosts_def mode_check_def Let_def mod_512_take_bit)

lemma ScanHome_mode_check:
  "ScanHome sc pth (Some i) =
     Inr (if Name i = Home sc then mode_check 9 pth ''0755'' 493 (Mode i) else [])"
  by (simp add: ScanHome_def mode_check_def Let_def mod_512_take_bit)

lemma rule_nil:
  "ScanSSH sc pth None = Inl NilPointerDereference"
  "ScanSSHConfig sc pth None = Inl NilPointerDereference"
  "ScanSSHKeys sc pth None = Inl NilPointerDereference"
  "ScanSSHAuthorizedKeys sc pth None = Inl NilPointerDereference"
  "ScanSSHKnownHosts sc pth None = Inl NilPointerDereference"
  "ScanHome sc pth None = Inl NilPointerDereference"
  by (simp_all add: ScanSSH_def ScanSSHConfig_def ScanSSHKeys_def ScanSSHAuthorizedKeys_def
      ScanSSHKnownHosts_def ScanHome_def)

lemma expected_rendered:
  "fmt_04o 448 = ''0700''" "fmt_04o 256 = ''0400''" "fmt_04o 384 = ''0600''"
  "fmt_04o 420 = ''0644''" "fmt_04o 493 = ''0755''"
  by code_simp+

lemma mode_check_form:
  assumes "w \<in> set (mode_check 9 pth (fmt_04o n) e m)" and "n < 4096"
  shows "\<exists>expected. w = pth @ '': expected chmod '' @ fmt_04o expected @ '', got '' @
             fmt_04o (unat (m mod 512)) \<and>
           four_octal_digits (fmt_04o expected) \<and>
           four_octal_digits (fmt_04o (unat (m mod 512)))"
proof -
  have w: "w = pth @ '': expected chmod '' @ fmt_04o n @ '', got '' @ fmt_04o (unat (m mod 512))"
    using assms(1) by (simp add: mode_check_def Let_def mod_512_take_bit split: if_splits)
  have "unat (m mod 512) < 4096"
    using unat_perm_bits [of m] by simp
  then have "four_octal_digits (fmt_04o (unat (m mod 512)))"
    by (rule fmt_04o_four)
  moreover have "four_octal_digits (fmt_04o n)"
    using assms(2) by (rule fmt_04o_four)
  ultimately show ?thesis using w by blast
qed

lemma ScanHome_path_home:
  "CHR ''/'' \<notin> set (Name i) \<Longrightarrow> CHR ''/'' \<in> set (Home sc) \<Longrightarrow> ScanHome sc pth (Some i) = Inr []"
  by (auto simp: ScanHome_def)

section \<open>The claims\<close>

text \<open>
  C1. The claim: for a nonexistent root, \<open>Scan\<close> returns no discrepancy and a non-nil
  error, without a panic, and the exit status is 1. The code at such a root:
  \<open>filepath.Walk\<close> hands \<open>Walk\<close> a nil \<open>FileInfo\<close> with the error of \<open>Lstat\<close>;
  \<open>Walk\<close> does not read the error and calls \<open>info.Name()\<close>, so \<open>Scan\<close> and
  \<open>Report\<close> end in a nil pointer dereference and return nothing.
\<close>

theorem C1_nonexistent_root_panics:
  "Scan (\<lambda>p. LstatError ENOENT) (Inr ''/home/u'') ''missing'' = Inl NilPointerDereference \<and>
   Report (\<lambda>p. LstatError ENOENT) (Inr ''/home/u'') ''missing'' = Inl NilPointerDereference"
  by code_simp

text \<open>
  C2. The claim: an error in the middle of the walk comes back from \<open>Scan\<close> together
  with every discrepancy collected before it. The code on a tree with a discrepancy and
  then a directory that cannot be listed: the discrepancy comes back with a nil error; and
  with an entry whose \<open>Lstat\<close> fails in place of that directory: a panic, and nothing
  comes back.
\<close>

theorem C2_traversal_error_not_returned:
  "Scan
     (\<lambda>p. if p = ''d'' then
        Entry \<lparr>Name = ''d'', Mode = 0x800001C0, IsDir = True\<rparr> None
          [(''.ssh'', Entry \<lparr>Name = ''.ssh'', Mode = 0x800001ED, IsDir = True\<rparr> None []),
           (''locked'', Entry \<lparr>Name = ''locked'', Mode = 0x80000000, IsDir = True\<rparr> (Some EACCES) [])]
      else LstatError ENOENT)
     (Inr ''/home/u'') ''d'' = Inr ([''d/.ssh: expected chmod 0700, got 0755''], None) \<and>
   Scan
     (\<lambda>p. if p = ''d'' then
        Entry \<lparr>Name = ''d'', Mode = 0x800001C0, IsDir = True\<rparr> None
          [(''.ssh'', Entry \<lparr>Name = ''.ssh'', Mode = 0x800001ED, IsDir = True\<rparr> None []),
           (''gone'', LstatError ENOENT)]
      else LstatError ENOENT)
     (Inr ''/home/u'') ''d'' = Inl NilPointerDereference"
  by code_simp

text \<open>
  C3, as stated, fails. A directory \<open>.ssh\<close> after \<open>chmod 1700\<close>: \<open>os.Lstat\<close> gives
  it the mode \<open>ModeDir | ModeSticky | 0700\<close>, which is \<open>0x801001C0\<close>. Its permission
  bits with its special bits are \<open>01700\<close>, which differ from \<open>0700\<close>; the rule
  compares the mode modulo \<open>01000\<close>, which is \<open>0700\<close> without the sticky bit, and
  reports nothing.
\<close>

theorem C3_special_bits_counterexample:
  "ScanSSH \<lparr>Warnings = [], Home = ''/home/u''\<rparr> ''.ssh''
     (Some \<lparr>Name = ''.ssh'', Mode = 0x801001C0, IsDir = True\<rparr>) = Inr [] \<and>
   permission_and_special_bits 0x801001C0 = 960 \<and>
   special_mode_check ''.ssh'' ''0700'' 448 0x801001C0 = [''.ssh: expected chmod 0700, got 1700'']"
  by code_simp

text \<open>
  C3, amended. For every entry and every rule, the mode compared with the expected value
  is the entry's mode reduced to its low nine bits (the owner, group and other permission
  bits), which is the mode modulo octal \<open>01000\<close>; every higher bit is dropped.
\<close>

theorem C3_mode_low_9_bits:
  "ScanSSH sc pth (Some i) =
     Inr (if Name i = ''.ssh'' then mode_check 9 pth ''0700'' 448 (Mode i) else []) \<and>
   ScanSSHConfig sc pth (Some i) =
     Inr (if Name i = ''config'' \<and> Base (Dir pth) = ''.ssh''
          then mode_check 9 pth ''0400'' 256 (Mode i) else []) \<and>
   ScanSSHKeys sc pth (Some i) =
     Inr (if MatchString SSHKeyPattern (Name i) \<and> Base (Dir pth) = ''.ssh''
          then (if MatchString SSHPublicKeyPattern (Name i)
                then mode_check 9 pth ''0644'' 420 (Mode i)
                else mode_check 9 pth ''0600'' 384 (Mode i))
          else []) \<and>
   ScanSSHAuthorizedKeys sc pth (Some i) =
     Inr (if Name i = ''authorized_keys'' then mode_check 9 pth ''0600'' 384 (Mode i) else []) \<and>
   ScanSSHKnownHosts sc pth (Some i) =
     Inr (if Name i = ''known_hosts'' then mode_check 9 pth ''0644'' 420 (Mode i) else []) \<and>
   ScanHome sc pth (Some i) =
     Inr (if Name i = Home sc then mode_check 9 pth ''0755'' 493 (Mode i) else []) \<and>
   Mode i mod 512 = take_bit 9 (Mode i)"
  by (intro conjI ScanSSH_mode_check ScanSSHConfig_mode_check ScanSSHKeys_mode_check
      ScanSSHAuthorizedKeys_mode_check ScanSSHKnownHosts_mode_check ScanHome_mode_check
      mod_512_take_bit)

text \<open>
  C4. The claim: an entry whose base name is the name of the user's home directory
  gives exactly one discrepancy, with expected mode \<open>0755\<close>, unless its mode is
  \<open>0755\<close>. The code with the home directory \<open>/home/u\<close>: \<open>Home\<close> is the whole path
  that \<open>os.UserHomeDir()\<close> returns, and \<open>ScanHome\<close> compares it with \<open>info.Name()\<close>,
  which is the base name \<open>u\<close>; the two differ, so the home directory with mode
  \<open>0700\<close> gives no discrepancy, by the rule alone and in a scan of \<open>/home\<close>.
\<close>

theorem C4_home_rule_misses_home_directory:
  "NewScanner (Inr ''/home/u'') = Inr \<lparr>Warnings = [], Home = ''/home/u''\<rparr> \<and>
   Base ''/home/u'' = ''u'' \<and>
   ScanHome \<lparr>Warnings = [], Home = ''/home/u''\<rparr> ''/home/u''
     (Some \<lparr>Name = ''u'', Mode = 0x800001C0, IsDir = True\<rparr>) = Inr [] \<and>
   Scan
     (\<lambda>p. if p = ''/home'' then
        Entry \<lparr>Name = ''home'', Mode = 0x800001ED, IsDir = True\<rparr> None
          [(''u'', Entry \<lparr>Name = ''u'', Mode = 0x800001C0, IsDir = True\<rparr> None [])]
      else LstatError ENOENT)
     (Inr ''/home/u'') ''/home'' = Inr ([], None)"
  by code_simp









text \<open>
  C9. Every discrepancy that any of the six rules returns is the path, then
  \<open>: expected chmod\<close> and the expected mode, then \<open>, got\<close> and the entry's mode modulo
  \<open>01000\<close>, both modes rendered by \<open>%04o\<close> as exactly four octal digits.
\<close>

theorem C9_discrepancy_format:
  assumes "rule \<in> {ScanSSH, ScanSSHConfig, ScanSSHKeys, ScanSSHAuthorizedKeys,
      ScanSSHKnownHosts, ScanHome}"
    and "rule sc pth info = Inr ws" and "w \<in> set ws"
  shows "\<exists>i expected. info = Some i \<and>
           w = pth @ '': expected chmod '' @ fmt_04o expected @ '', got '' @
             fmt_04o (unat (Mode i mod 512)) \<and>
           four_octal_digits (fmt_04o expected) \<and>
           four_octal_digits (fmt_04o (unat (Mode i mod 512)))"
proof -
  obtain i where i: "info = Some i"
    using assms(1,2) by (cases info) (auto simp: rule_nil)
  consider "rule = ScanSSH" | "rule = ScanSSHConfig" | "rule = ScanSSHKeys"
    | "rule = ScanSSHAuthorizedKeys" | "rule = ScanSSHKnownHosts" | "rule = ScanHome"
    using assms(1) by auto
  then have "\<exists>n. n < 4096 \<and> w \<in> set (mode_check 9 pth (fmt_04o n) (of_nat n) (Mode i))"
  proof cases
    case 1
    then have "w \<in> set (mode_check 9 pth (fmt_04o 448) (of_nat 448) (Mode i))"
      using assms(2,3) i by (simp add: ScanSSH_mode_check expected_rendered split: if_splits)
    then show ?thesis by (intro exI [of _ 448]) simp
  next
    case 2
    then have "w \<in> set (mode_check 9 pth (fmt_04o 256) (of_nat 256) (Mode i))"
      using assms(2,3) i by (simp add: ScanSSHConfig_mode_check expected_rendered split: if_splits)
    then show ?thesis by (intro exI [of _ 256]) simp
  next
    case 3
    then have "w \<in> set (mode_check 9 pth (fmt_04o 420) (of_nat 420) (Mode i)) \<or>
        w \<in> set (mode_check 9 pth (fmt_04o 384) (of_nat 384) (Mode i))"
      using assms(2,3) i by (auto simp: ScanSSHKeys_mode_check expected_rendered split: if_splits)
    then show ?thesis
    proof
      assume "w \<in> set (mode_check 9 pth (fmt_04o 420) (of_nat 420) (Mode i))"
      then show ?thesis by (intro exI [of _ 420]) simp
    next
      assume "w \<in> set (mode_check 9 pth (fmt_04o 384) (of_nat 384) (Mode i))"
      then show ?thesis by (intro exI [of _ 384]) simp
    qed
  next
    case 4
    then have "w \<in> set (mode_check 9 pth (fmt_04o 384) (of_nat 384) (Mode i))"
      using assms(2,3) i
      by (simp add: ScanSSHAuthorizedKeys_mode_check expected_rendered split: if_splits)
    then show ?thesis by (intro exI [of _ 384]) simp
  next
    case 5
    then have "w \<in> set (mode_check 9 pth (fmt_04o 420) (of_nat 420) (Mode i))"
      using assms(2,3) i
      by (simp add: ScanSSHKnownHosts_mode_check expected_rendered split: if_splits)
    then show ?thesis by (intro exI [of _ 420]) simp
  next
    case 6
    then have "w \<in> set (mode_check 9 pth (fmt_04o 493) (of_nat 493) (Mode i))"
      using assms(2,3) i by (simp add: ScanHome_mode_check expected_rendered split: if_splits)
    then show ?thesis by (intro exI [of _ 493]) simp
  qed
  then obtain n where "n < 4096" "w \<in> set (mode_check 9 pth (fmt_04o n) (of_nat n) (Mode i))"
    by blast
  then show ?thesis
    using mode_check_form [of w pth n "of_nat n" "Mode i"] i by blast
qed

text \<open>
  C9 at the discrepancy of \<open>.ssh/id_test\<close> with mode \<open>0644\<close>.
\<close>

theorem C9_discrepancy_format_witness:
  "ScanSSHKeys \<lparr>Warnings = [], Home = ''/home/u''\<rparr> ''.ssh/id_test''
     (Some \<lparr>Name = ''id_test'', Mode = 420, IsDir = False\<rparr>) =
     Inr [''.ssh/id_test: expected chmod 0600, got 0644''] \<and>
   (\<exists>expected.
      ''.ssh/id_test: expected chmod 0600, got 0644'' =
        ''.ssh/id_test'' @ '': expected chmod '' @ fmt_04o expected @ '', got '' @ fmt_04o 420 \<and>
      four_octal_digits (fmt_04o expected) \<and> four_octal_digits (fmt_04o 420))"
proof -
  have r: "ScanSSHKeys \<lparr>Warnings = [], Home = ''/home/u''\<rparr> ''.ssh/id_test''
     (Some \<lparr>Name = ''id_test'', Mode = 420, IsDir = False\<rparr>) =
     Inr [''.ssh/id_test: expected chmod 0600, got 0644'']"
    by code_simp
  have m: "ScanSSHKeys \<in> {ScanSSH, ScanSSHConfig, ScanSSHKeys, ScanSSHAuthorizedKeys,
      ScanSSHKnownHosts, ScanHome}"
    by simp
  have u: "unat (Mode \<lparr>Name = ''id_test'', Mode = 420, IsDir = False\<rparr> mod 512) = 420"
    by simp
  have "\<exists>i expected. Some \<lparr>Name = ''id_test'', Mode = 420, IsDir = False\<rparr> = Some i \<and>
      ''.ssh/id_test: expected chmod 0600, got 0644'' =
        ''.ssh/id_test'' @ '': expected chmod '' @ fmt_04o expected @ '', got '' @
          fmt_04o (unat (Mode i mod 512)) \<and>
      four_octal_digits (fmt_04o expected) \<and>
      four_octal_digits (fmt_04o (unat (Mode i mod 512)))"
    by (rule C9_discrepancy_format [OF m r]) simp
  then show ?thesis using r u by auto
qed

subsection \<open>The \<open>io.EOF\<close> branch of \<open>Scan\<close>\<close>

text \<open>
  \<open>Scan\<close> returns a nil error when the traversal's error is \<open>io.EOF\<close>. No scan
  takes that branch: with \<open>filepath.Walk\<close> and \<open>Walk\<close> the traversal's error is
  always nil (\<open>filepath_Walk_no_error\<close>), so the branch is stated for a traversal left
  open, and of \<open>Scan\<close> itself only that it never returns a traversal error.
\<close>

lemma Scan_over_EOF:
  "NewScanner UserHomeDir = Inr scanner \<Longrightarrow>
   traverse root Walk scanner = Inr (scanner', Some EOF) \<Longrightarrow>
   Scan_over traverse UserHomeDir root = Inr (Warnings scanner', None)"
  by (simp add: Scan_over_def)

lemma Scan_never_sees_EOF:
  "filepath_Walk fs root Walk scanner \<noteq> Inr (scanner', Some EOF)"
  using filepath_Walk_no_error [of fs root scanner scanner' "Some EOF"] by auto

end
